theory Spec2Isabelle
  imports Main
begin

section \<open>Flashcard Tutor: the application layer (app.py)\<close>

subsection \<open>Python strings\<close>

text \<open>
  A Python \<open>str\<close> is a sequence of Unicode code points and \<open>len\<close> counts code points.
  A string is therefore a list of code points, each a natural number; an ASCII literal
  of the source is written \<open>str ''...''\<close>. The functions keep the names of app.py, without
  the leading underscore of the private ones.
\<close>

type_synonym pystr = "nat list"

definition str :: "string \<Rightarrow> pystr" where
  "str cs = map of_char cs"

definition CR :: nat where "CR = 13"
definition LF :: nat where "LF = 10"
definition TAB :: nat where "TAB = 9"
definition SPACE :: nat where "SPACE = 32"

text \<open>
  \<open>str.isspace\<close> on one code point: the characters that \<open>str.strip()\<close> removes when it
  is called without an argument.
\<close>

definition isspace :: "nat \<Rightarrow> bool" where
  "isspace c \<longleftrightarrow>
     (9 \<le> c \<and> c \<le> 13) \<or> (28 \<le> c \<and> c \<le> 32) \<or> c = 133 \<or> c = 160 \<or> c = 5760 \<or>
     (8192 \<le> c \<and> c \<le> 8202) \<or> c = 8232 \<or> c = 8233 \<or> c = 8239 \<or> c = 8287 \<or> c = 12288"

definition strip :: "pystr \<Rightarrow> pystr" where
  "strip s = rev (dropWhile isspace (rev (dropWhile isspace s)))"

text \<open>\<open>str(n)\<close> for an integer: decimal digits, with a minus sign below zero.\<close>

fun str_nat :: "nat \<Rightarrow> pystr" where
  "str_nat n = (if n < 10 then [48 + n] else str_nat (n div 10) @ [48 + n mod 10])"

declare str_nat.simps [simp del]

definition str_int :: "int \<Rightarrow> pystr" where
  "str_int i = (if i < 0 then 45 # str_nat (nat (- i)) else str_nat (nat i))"

subsection \<open>Input preprocessing\<close>

text \<open>\<open>raw_text.replace("\r\n", "\n")\<close>: every carriage return followed by a line feed
  becomes a line feed, scanning from the left.\<close>

fun replace_crlf :: "pystr \<Rightarrow> pystr" where
  "replace_crlf (a # b # s) =
     (if a = CR \<and> b = LF then LF # replace_crlf s else a # replace_crlf (b # s))"
| "replace_crlf s = s"

text \<open>\<open>.replace("\r", "\n")\<close>: every remaining carriage return becomes a line feed.\<close>

definition replace_cr :: "pystr \<Rightarrow> pystr" where
  "replace_cr s = map (\<lambda>c. if c = CR then LF else c) s"

definition is_blank :: "nat \<Rightarrow> bool" where
  "is_blank c \<longleftrightarrow> c = TAB \<or> c = SPACE"

text \<open>\<open>re.sub(r"[\t ]+", " ", text)\<close>: each maximal run of tabs and spaces is replaced
  by one space; the scan goes on after the run.\<close>

function sub_blanks :: "pystr \<Rightarrow> pystr" where
  "sub_blanks [] = []"
| "sub_blanks (c # s) =
     (if is_blank c then SPACE # sub_blanks (dropWhile is_blank s) else c # sub_blanks s)"
  by pat_completeness auto
termination
  by (relation "measure length") (auto simp: less_Suc_eq_le length_dropWhile_le)

text \<open>\<open>re.sub(r"\n{3,}", "\n\n", text)\<close>: each maximal run of three or more line feeds is
  replaced by two; a shorter run does not match and is copied.\<close>

function sub_newlines :: "pystr \<Rightarrow> pystr" where
  "sub_newlines [] = []"
| "sub_newlines (c # s) =
     (if 3 \<le> length (takeWhile (\<lambda>x. x = LF) (c # s))
      then LF # LF # sub_newlines (dropWhile (\<lambda>x. x = LF) (c # s))
      else c # sub_newlines s)"
  by pat_completeness auto
termination
proof (relation "measure length")
  show "wf (measure length)" by simp
next
  fix c :: nat and s :: pystr
  assume "3 \<le> length (takeWhile (\<lambda>x. x = LF) (c # s))"
  then have "c = LF" by (auto split: if_splits)
  then have "length (dropWhile (\<lambda>x. x = LF) (c # s)) \<le> length s"
    by (simp add: length_dropWhile_le)
  then show "(dropWhile (\<lambda>x. x = LF) (c # s), c # s) \<in> measure length" by simp
next
  fix c :: nat and s :: pystr
  show "(s, c # s) \<in> measure length" by simp
qed

text \<open>The whitespace normalisation of \<open>_preprocess_study_text\<close>, lines 146 to 150.\<close>

definition normalize_ws :: "pystr \<Rightarrow> pystr" where
  "normalize_ws raw = strip (sub_newlines (sub_blanks (replace_cr (replace_crlf raw))))"

definition min_chars :: nat where
  "min_chars = 120"

definition msg_no_text :: pystr where
  "msg_no_text = str ''Please paste your study notes in the textbox.''"

text \<open>The dash of this message is U+2014, one code point.\<close>

definition msg_empty :: pystr where
  "msg_empty = str ''Please paste your study notes '' @ [8212] @
     str '' the input is currently empty.''"

definition msg_too_short :: pystr where
  "msg_too_short =
     str ''Your study material looks too short to generate useful flashcards. '' @
     str ''Please paste at least ~'' @ str_int (int min_chars) @
     str '' characters (a few paragraphs) and try again.''"

text \<open>
  \<open>_preprocess_study_text\<close>. The argument is \<open>None\<close> or a string; the result is the pair
  \<open>(clean_text, None)\<close> or \<open>(None, error_message)\<close>.
\<close>

definition preprocess_study_text :: "pystr option \<Rightarrow> pystr option \<times> pystr option" where
  "preprocess_study_text raw_text =
     (case raw_text of
        None \<Rightarrow> (None, Some msg_no_text)
      | Some raw \<Rightarrow>
          (let text = normalize_ws raw in
           if text = [] then (None, Some msg_empty)
           else if length text < min_chars then (None, Some msg_too_short)
           else (Some text, None)))"

subsection \<open>Flashcard generation handler\<close>

text \<open>A Python dict with string keys and string values, in insertion order.\<close>

type_synonym pydict = "(pystr \<times> pystr) list"

text \<open>\<open>d.get(key, default)\<close>.\<close>

definition dict_get :: "pydict \<Rightarrow> pystr \<Rightarrow> pystr \<Rightarrow> pystr" where
  "dict_get d k dflt = (case map_of d k of None \<Rightarrow> dflt | Some v \<Rightarrow> v)"

text \<open>
  The card class and the generation engine belong to the module \<open>flashcards\<close>, which
  app.py imports. What \<open>ui_generate\<close> uses of it is taken as parameters:
  \<^item> \<open>'card\<close>, the class \<open>Flashcard\<close>;
  \<^item> \<open>generate_flashcards\<close>, called with the cleaned text, the count, the style, the
    difficulty and the LLM preference; it returns \<open>Inr (cards, mode, raw)\<close>, or
    \<open>Inl m\<close> when it raises an \<open>Exception\<close> \<open>e\<close> with \<open>str(e) = m\<close>;
  \<^item> \<open>cards_to_table\<close>, from cards to table rows;
  \<^item> \<open>asdict\<close>, the dict of a card's fields.
\<close>

type_synonym 'card generator =
  "pystr option \<Rightarrow> int \<Rightarrow> pystr \<Rightarrow> pystr \<Rightarrow> bool \<Rightarrow> pystr + ('card list \<times> pystr \<times> pystr)"

type_synonym generate_out = "pystr list list \<times> pystr \<times> pystr \<times> pydict list"

text \<open>Truth value of an \<open>Optional[str]\<close>: \<open>None\<close> and the empty string are false.\<close>

definition truthy :: "pystr option \<Rightarrow> bool" where
  "truthy v = (case v of None \<Rightarrow> False | Some s \<Rightarrow> s \<noteq> [])"

text \<open>\<open>str(e).strip() or "Unknown error"\<close>.\<close>

definition exception_msg :: "pystr \<Rightarrow> pystr" where
  "exception_msg m = (if strip m \<noteq> [] then strip m else str ''Unknown error'')"

definition error_status :: "pystr \<Rightarrow> pystr" where
  "error_status m = str ''**Error:** '' @ m"

definition generated_status :: "nat \<Rightarrow> pystr \<Rightarrow> pystr" where
  "generated_status k mode =
     (if mode = str ''fallback'' then
        str ''**Generated '' @ str_int (int k) @ str '' flashcards.** Mode: `'' @ mode @
        str ''`'' @ [LF, LF] @
        str ''**Note:** Using offline fallback generation (LLM disabled or unavailable).'' @
        [LF, LF] @ str ''Go to the **Quiz** tab to start practicing.''
      else
        str ''**Generated '' @ str_int (int k) @ str '' flashcards.** Mode: `'' @ mode @
        str ''`'' @ [LF, LF] @ str ''Go to the **Quiz** tab to start practicing.'')"

definition ui_generate ::
  "'card generator \<Rightarrow> ('card list \<Rightarrow> pystr list list) \<Rightarrow> ('card \<Rightarrow> pydict) \<Rightarrow>
   pystr option \<Rightarrow> int \<Rightarrow> pystr \<Rightarrow> pystr \<Rightarrow> bool \<Rightarrow> generate_out" where
  "ui_generate generate_flashcards cards_to_table asdict study_text n_cards style difficulty use_llm =
     (case preprocess_study_text study_text of (cleaned_text, err) \<Rightarrow>
        if truthy err then ([], error_status (the err), [], [])
        else
          (case generate_flashcards cleaned_text n_cards style difficulty use_llm of
             Inl e \<Rightarrow> ([], error_status (exception_msg e), exception_msg e, [])
           | Inr (cards, mode, raw) \<Rightarrow>
               (cards_to_table cards, generated_status (length cards) mode, raw,
                map asdict cards)))"

subsection \<open>Quiz session\<close>

text \<open>
  The quiz state is the dict built by \<open>_quiz_init_state\<close>, which the handlers update in
  place without adding or removing a key: a record of its nine entries. The empty dict
  that the application holds before the first quiz is \<open>None\<close> of \<open>quiz_state option\<close>.
\<close>

record quiz_state =
  cards :: "pydict list"
  idx :: int
  revealed :: bool
  marked :: bool
  correct :: int
  incorrect :: int
  answered :: int
  history :: "pydict list"
  finished :: bool

datatype py_error = ZeroDivisionError | OverflowError | ValueError

definition str_error :: "py_error \<Rightarrow> pystr" where
  "str_error e =
     (case e of
        ZeroDivisionError \<Rightarrow> str ''division by zero''
      | OverflowError \<Rightarrow> str ''integer division result too large for a float''
      | ValueError \<Rightarrow>
          str ''Exceeds the limit (4300 digits) for integer string conversion; '' @
          str ''use sys.set_int_max_str_digits() to increase the limit'')"

definition quiz_init_state :: "pydict list \<Rightarrow> quiz_state" where
  "quiz_init_state cards_state =
     \<lparr>cards = cards_state, idx = 0, revealed = False, marked = False, correct = 0,
      incorrect = 0, answered = 0, history = [], finished = False\<rparr>"

text \<open>
  Two operations of \<open>_quiz_score_text\<close> on Python's unbounded integers can raise.

  The true division \<open>correct / answered\<close> raises \<open>ZeroDivisionError\<close> on a zero divisor
  and \<open>OverflowError\<close> when the quotient, rounded to the nearest binary64 number, is
  not finite: that is when its absolute value is at least \<open>2 ^ 1024 - 2 ^ 970\<close>, half
  an ulp above the largest binary64 number. The product with \<open>100.0\<close> and the format
  \<open>.1f\<close> never raise (an overflowing product is \<open>inf\<close>). The digits that binary64
  arithmetic gives are not modelled: \<open>pct_1f correct answered\<close>, a parameter, is the
  text of \<open>correct / answered * 100.0\<close> under \<open>.1f\<close> where the division succeeds.

  Formatting an integer in an f-string raises \<open>ValueError\<close> when it has more than 4300
  decimal digits, the interpreter's default limit on the conversion.
\<close>

definition float_overflow_bound :: int where
  "float_overflow_bound = 2 ^ 1024 - 2 ^ 970"

definition max_str_digits :: nat where
  "max_str_digits = 4300"

definition true_div_pct :: "(int \<Rightarrow> int \<Rightarrow> pystr) \<Rightarrow> int \<Rightarrow> int \<Rightarrow> py_error + pystr" where
  "true_div_pct pct_1f a b =
     (if b = 0 then Inl ZeroDivisionError
      else if float_overflow_bound * abs b \<le> abs a then Inl OverflowError
      else Inr (pct_1f a b))"

definition format_int :: "int \<Rightarrow> py_error + pystr" where
  "format_int i = (if 10 ^ max_str_digits \<le> abs i then Inl ValueError else Inr (str_int i))"

text \<open>The accuracy is computed first; the f-string then formats its fields from left to
  right, and the first exception ends the call.\<close>

definition quiz_score_text :: "(int \<Rightarrow> int \<Rightarrow> pystr) \<Rightarrow> quiz_state \<Rightarrow> py_error + pystr" where
  "quiz_score_text pct_1f state =
     (case (if answered state \<noteq> 0 then true_div_pct pct_1f (correct state) (answered state)
            else Inr (str ''0.0'')) of
        Inl e \<Rightarrow> Inl e
      | Inr acc \<Rightarrow>
          (case format_int (correct state) of
             Inl e \<Rightarrow> Inl e
           | Inr c \<Rightarrow>
               (case format_int (incorrect state) of
                  Inl e \<Rightarrow> Inl e
                | Inr i \<Rightarrow>
                    (case format_int (answered state) of
                       Inl e \<Rightarrow> Inl e
                     | Inr a \<Rightarrow>
                         Inr (str ''Correct: **'' @ c @ str ''**'' @ [LF, LF] @
                              str ''Incorrect: **'' @ i @ str ''**'' @ [LF, LF] @
                              str ''Total answered: **'' @ a @ str ''**'' @ [LF, LF] @
                              str ''Accuracy: **'' @ acc @ str ''%**'')))))"


definition quiz_progress_text :: "quiz_state \<Rightarrow> pystr" where
  "quiz_progress_text state =
     (if cards state = [] then []
      else if finished state then
        str ''Finished! '' @ str_int (int (length (cards state))) @ str '' / '' @
        str_int (int (length (cards state)))
      else
        str ''Question '' @ str_int (idx state + 1) @ str '' / '' @
        str_int (int (length (cards state))))"

definition quiz_current_question :: "quiz_state \<Rightarrow> pystr" where
  "quiz_current_question state =
     (if cards state = [] \<or> idx state < 0 \<or> idx state \<ge> int (length (cards state)) then []
      else dict_get (cards state ! nat (idx state)) (str ''question'') [])"

definition quiz_current_answer :: "quiz_state \<Rightarrow> pystr" where
  "quiz_current_answer state =
     (if cards state = [] \<or> idx state < 0 \<or> idx state \<ge> int (length (cards state)) then []
      else dict_get (cards state ! nat (idx state)) (str ''answer'') [])"

type_synonym quiz_out = "quiz_state option \<times> pystr \<times> pystr \<times> pystr \<times> pystr"

definition msg_start_first :: pystr where
  "msg_start_first = str ''**Error:** Start the quiz first.''"

definition msg_finished :: pystr where
  "msg_finished = str ''Quiz is finished.''"

text \<open>The \<open>except Exception as e\<close> clause of the handlers: the state as it is when the
  exception arrives, and the message.\<close>

definition on_exception :: "quiz_state option \<Rightarrow> py_error \<Rightarrow> quiz_out" where
  "on_exception quiz_state e = (quiz_state, [], [], [], str ''**Error:** '' @ str_error e)"

text \<open>\<open>ui_start_quiz\<close> has no \<open>try\<close>: an exception of the score text would leave it.\<close>

definition ui_start_quiz ::
  "(int \<Rightarrow> int \<Rightarrow> pystr) \<Rightarrow> pydict list \<Rightarrow> py_error + quiz_out" where
  "ui_start_quiz pct_1f cards_state =
     (if cards_state = [] then
        Inr (Some (quiz_init_state []),
             str ''**Error:** No flashcards yet. Generate flashcards first.'', [], [], [])
      else
        (let state = quiz_init_state cards_state in
         case quiz_score_text pct_1f state of
           Inl e \<Rightarrow> Inl e
         | Inr score \<Rightarrow>
             Inr (Some state, quiz_progress_text state, quiz_current_question state, score, [])))"

definition ui_reveal_answer :: "(int \<Rightarrow> int \<Rightarrow> pystr) \<Rightarrow> quiz_state option \<Rightarrow> quiz_out" where
  "ui_reveal_answer pct_1f quiz_state =
     (case quiz_state of
        None \<Rightarrow> (None, [], [], [], msg_start_first)
      | Some s \<Rightarrow>
          if cards s = [] then (Some s, [], [], [], msg_start_first)
          else if finished s then
            (case quiz_score_text pct_1f s of
               Inl e \<Rightarrow> on_exception (Some s) e
             | Inr score \<Rightarrow> (Some s, quiz_progress_text s, [], score, msg_finished))
          else
            (let s1 = s\<lparr>revealed := True\<rparr> in
             case quiz_score_text pct_1f s1 of
               Inl e \<Rightarrow> on_exception (Some s1) e
             | Inr score \<Rightarrow>
                 (Some s1, quiz_progress_text s1, quiz_current_question s1, score,
                  str ''**Answer:** '' @ quiz_current_answer s1)))"

text \<open>The record appended to \<open>history\<close> by \<open>ui_mark_answer\<close>.\<close>

definition history_entry :: "pydict \<Rightarrow> bool \<Rightarrow> pydict" where
  "history_entry c is_correct =
     [(str ''question'', dict_get c (str ''question'') []),
      (str ''answer'', dict_get c (str ''answer'') []),
      (str ''type'', dict_get c (str ''type'') []),
      (str ''difficulty'', dict_get c (str ''difficulty'') []),
      (str ''result'', if is_correct then str ''correct'' else str ''incorrect'')]"

definition ui_mark_answer ::
  "(int \<Rightarrow> int \<Rightarrow> pystr) \<Rightarrow> quiz_state option \<Rightarrow> bool \<Rightarrow> quiz_out" where
  "ui_mark_answer pct_1f quiz_state is_correct =
     (case quiz_state of
        None \<Rightarrow> (None, [], [], [], msg_start_first)
      | Some s \<Rightarrow>
          if cards s = [] then (Some s, [], [], [], msg_start_first)
          else if finished s then
            (case quiz_score_text pct_1f s of
               Inl e \<Rightarrow> on_exception (Some s) e
             | Inr score \<Rightarrow> (Some s, quiz_progress_text s, [], score, msg_finished))
          else if marked s then
            (case quiz_score_text pct_1f s of
               Inl e \<Rightarrow> on_exception (Some s) e
             | Inr score \<Rightarrow>
                 (Some s, quiz_progress_text s, quiz_current_question s, score,
                  str ''You already marked this question. Click **Next Question**.''))
          else if idx s < 0 \<or> idx s \<ge> int (length (cards s)) then
            (let s1 = s\<lparr>finished := True\<rparr> in
             case quiz_score_text pct_1f s1 of
               Inl e \<Rightarrow> on_exception (Some s1) e
             | Inr score \<Rightarrow> (Some s1, quiz_progress_text s1, [], score, msg_finished))
          else
            (let s1 = s\<lparr>answered := answered s + 1\<rparr>;
                 s2 = (if is_correct then s1\<lparr>correct := correct s1 + 1\<rparr>
                       else s1\<lparr>incorrect := incorrect s1 + 1\<rparr>);
                 s3 = s2\<lparr>marked := True\<rparr>;
                 s4 = s3\<lparr>history :=
                         history s3 @ [history_entry (cards s ! nat (idx s)) is_correct]\<rparr>;
                 verdict = (if is_correct then str ''Correct'' else str ''Incorrect'')
             in case quiz_score_text pct_1f s4 of
                  Inl e \<Rightarrow> on_exception (Some s4) e
                | Inr score \<Rightarrow>
                    (Some s4, quiz_progress_text s4, quiz_current_question s4, score,
                     str ''Marked **'' @ verdict @ str ''**. Click **Next Question**.'')))"

definition ui_next_question :: "(int \<Rightarrow> int \<Rightarrow> pystr) \<Rightarrow> quiz_state option \<Rightarrow> quiz_out" where
  "ui_next_question pct_1f quiz_state =
     (case quiz_state of
        None \<Rightarrow> (None, [], [], [], msg_start_first)
      | Some s \<Rightarrow>
          if cards s = [] then (Some s, [], [], [], msg_start_first)
          else if finished s then
            (case quiz_score_text pct_1f s of
               Inl e \<Rightarrow> on_exception (Some s) e
             | Inr score \<Rightarrow> (Some s, quiz_progress_text s, [], score, msg_finished))
          else
            (let s1 = s\<lparr>idx := idx s + 1, revealed := False, marked := False\<rparr> in
             if idx s1 \<ge> int (length (cards s1)) then
               (let s2 = s1\<lparr>finished := True\<rparr> in
                case quiz_score_text pct_1f s2 of
                  Inl e \<Rightarrow> on_exception (Some s2) e
                | Inr score \<Rightarrow> (Some s2, quiz_progress_text s2, [], score, msg_finished))
             else
               (case quiz_score_text pct_1f s1 of
                  Inl e \<Rightarrow> on_exception (Some s1) e
                | Inr score \<Rightarrow>
                    (Some s1, quiz_progress_text s1, quiz_current_question s1, score, []))))"

subsection \<open>Runs of handler calls\<close>

text \<open>
  The four quiz buttons, and a run of clicks. Each handler's first result is stored as
  the new quiz state; \<open>ui_start_quiz\<close> receives the cards of the last generation.
\<close>

datatype quiz_event = Start_quiz "pydict list" | Reveal_answer | Mark_answer bool | Next_question

fun quiz_step ::
  "(int \<Rightarrow> int \<Rightarrow> pystr) \<Rightarrow> quiz_state option \<Rightarrow> quiz_event \<Rightarrow> quiz_state option" where
  "quiz_step f qs (Start_quiz cs) = (case ui_start_quiz f cs of Inl e \<Rightarrow> qs | Inr out \<Rightarrow> fst out)"
| "quiz_step f qs Reveal_answer = fst (ui_reveal_answer f qs)"
| "quiz_step f qs (Mark_answer is_correct) = fst (ui_mark_answer f qs is_correct)"
| "quiz_step f qs Next_question = fst (ui_next_question f qs)"

definition quiz_run ::
  "(int \<Rightarrow> int \<Rightarrow> pystr) \<Rightarrow> quiz_state option \<Rightarrow> quiz_event list \<Rightarrow> quiz_state option" where
  "quiz_run f qs events = foldl (quiz_step f) qs events"

text \<open>The scoring invariant: every answered question is counted once, as correct or as
  incorrect, and has one record in the history.\<close>

definition score_consistent :: "quiz_state option \<Rightarrow> bool" where
  "score_consistent qs =
     (case qs of
        None \<Rightarrow> True
      | Some s \<Rightarrow> answered s = correct s + incorrect s \<and> int (length (history s)) = answered s)"

subsection \<open>Properties of a cleaned text\<close>

text \<open>Two adjacent characters that are both a space or a tab.\<close>

fun has_blank_run :: "pystr \<Rightarrow> bool" where
  "has_blank_run (a # b # s) = ((is_blank a \<and> is_blank b) \<or> has_blank_run (b # s))"
| "has_blank_run s = False"

text \<open>Three adjacent line feeds.\<close>

fun has_newline_run3 :: "pystr \<Rightarrow> bool" where
  "has_newline_run3 (a # b # c # s) =
     ((a = LF \<and> b = LF \<and> c = LF) \<or> has_newline_run3 (b # c # s))"
| "has_newline_run3 s = False"

definition leading_ws :: "pystr \<Rightarrow> bool" where
  "leading_ws s \<longleftrightarrow> s \<noteq> [] \<and> isspace (hd s)"

definition trailing_ws :: "pystr \<Rightarrow> bool" where
  "trailing_ws s \<longleftrightarrow> s \<noteq> [] \<and> isspace (last s)"

text \<open>The number of line feeds a string starts with.\<close>

definition lead_newlines :: "pystr \<Rightarrow> nat" where
  "lead_newlines s = length (takeWhile (\<lambda>x. x = LF) s)"

subsection \<open>Sample data\<close>

text \<open>
  Concrete inputs for the instances below: a text of two sentences with untidy
  whitespace, the same text cleaned (127 characters), a text that is too short, two
  cards, and stand-ins for the parameters (cards that are their own
  dicts, a generator that answers with the first \<open>n\<close> sample cards and reports the count
  it was called with, a generator that raises, and a fixed accuracy rendering).
\<close>

definition untidy_text :: pystr where
  "untidy_text =
     [SPACE, TAB] @
     str ''Photosynthesis is the process by which  plants turn light into chemical energy.'' @
     [CR, LF, LF, LF, CR, TAB, SPACE] @
     str ''Chlorophyll absorbs mostly red and blue light.'' @ [SPACE, CR]"

definition tidy_text :: pystr where
  "tidy_text =
     str ''Photosynthesis is the process by which plants turn light into chemical energy.'' @
     [LF, LF, SPACE] @
     str ''Chlorophyll absorbs mostly red and blue light.''"

definition short_text :: pystr where
  "short_text = str ''  too   short ''"

definition sample_cards :: "pydict list" where
  "sample_cards =
     [[(str ''type'', str ''qa''), (str ''difficulty'', str ''easy''),
       (str ''question'', str ''Q1''), (str ''answer'', str ''A1'')],
      [(str ''type'', str ''qa''), (str ''difficulty'', str ''easy''),
       (str ''question'', str ''Q2''), (str ''answer'', str ''A2'')]]"

definition sample_asdict :: "pydict \<Rightarrow> pydict" where
  "sample_asdict c = c"

definition sample_table :: "pydict list \<Rightarrow> pystr list list" where
  "sample_table cs =
     map (\<lambda>c. [dict_get c (str ''type'') [], dict_get c (str ''difficulty'') [],
               dict_get c (str ''question'') [], dict_get c (str ''answer'') []]) cs"

definition sample_generator :: "pydict generator" where
  "sample_generator text n style difficulty use_llm =
     Inr (take (nat n) sample_cards, str ''fallback'', str ''n='' @ str_int n)"

definition failing_generator :: "pydict generator" where
  "failing_generator text n style difficulty use_llm = Inl (str '' request timed out '')"

text \<open>A generator that raises unless it is handed exactly the cleaned sample text.\<close>

definition strict_generator :: "pydict generator" where
  "strict_generator text n style difficulty use_llm =
     (if text = Some tidy_text then sample_generator text n style difficulty use_llm
      else Inl (str ''unexpected text''))"

definition sample_pct_1f :: "int \<Rightarrow> int \<Rightarrow> pystr" where
  "sample_pct_1f c a = str ''n/a''"



section \<open>Preprocessing\<close>

subsection \<open>Stripping keeps a contiguous part of the text\<close>

lemma rev_dropWhile_rev_decomp:
  "u = rev (dropWhile P (rev u)) @ rev (takeWhile P (rev u))"
  by (metis rev_append rev_rev_ident takeWhile_dropWhile_id)

lemma strip_decomp: "\<exists>pre post. s = pre @ strip s @ post"
proof -
  let ?u = "dropWhile isspace s"
  have 1: "s = takeWhile isspace s @ ?u" by simp
  have 2: "?u = strip s @ rev (takeWhile isspace (rev ?u))"
    unfolding strip_def by (rule rev_dropWhile_rev_decomp)
  from 1 2 have "s = takeWhile isspace s @ strip s @ rev (takeWhile isspace (rev ?u))"
    by simp
  then show ?thesis by blast
qed

lemma set_strip: "set (strip s) \<subseteq> set s"
proof -
  obtain pre post where "s = pre @ strip s @ post" using strip_decomp by blast
  then have "set s = set pre \<union> set (strip s) \<union> set post" by (metis set_append Un_assoc)
  then show ?thesis by blast
qed

lemma hd_dropWhile_not: "dropWhile P s \<noteq> [] \<Longrightarrow> \<not> P (hd (dropWhile P s))"
  by (induction s) (auto split: if_splits)

lemma strip_not_trailing: "\<not> trailing_ws (strip s)"
proof (cases "strip s = []")
  case True then show ?thesis by (simp add: trailing_ws_def)
next
  case False
  let ?v = "dropWhile isspace (rev (dropWhile isspace s))"
  from False have v: "?v \<noteq> []" by (simp add: strip_def)
  have "last (strip s) = hd ?v" using v by (simp add: strip_def last_rev)
  with hd_dropWhile_not [OF v] show ?thesis by (simp add: trailing_ws_def)
qed

lemma strip_not_leading: "\<not> leading_ws (strip s)"
proof (cases "strip s = []")
  case True then show ?thesis by (simp add: leading_ws_def)
next
  case False
  let ?u = "dropWhile isspace s"
  have "?u = strip s @ rev (takeWhile isspace (rev ?u))"
    unfolding strip_def by (rule rev_dropWhile_rev_decomp)
  then obtain post where p: "?u = strip s @ post" by blast
  with False have u: "?u \<noteq> []" by auto
  from p False have "hd ?u = hd (strip s)" by (metis hd_append2)
  with hd_dropWhile_not [OF u] show ?thesis by (simp add: leading_ws_def)
qed

subsection \<open>Runs of blanks\<close>

lemma has_blank_run_Cons:
  "has_blank_run (c # t) \<longleftrightarrow> (t \<noteq> [] \<and> is_blank c \<and> is_blank (hd t)) \<or> has_blank_run t"
  by (cases t) auto

lemma has_blank_run_append_left: "has_blank_run ys \<Longrightarrow> has_blank_run (xs @ ys)"
  by (induction xs) (auto simp: has_blank_run_Cons)

lemma has_blank_run_append_right: "has_blank_run xs \<Longrightarrow> has_blank_run (xs @ ys)"
  by (induction xs rule: has_blank_run.induct) auto

lemma strip_no_blank_run: "\<not> has_blank_run s \<Longrightarrow> \<not> has_blank_run (strip s)"
  by (metis strip_decomp has_blank_run_append_left has_blank_run_append_right)

lemma replace_cr_no_CR: "CR \<notin> set (replace_cr s)"
  by (auto simp: replace_cr_def CR_def LF_def)

lemma set_sub_blanks: "set (sub_blanks s) \<subseteq> insert SPACE (set s)"
proof (induction s rule: sub_blanks.induct)
  case 1 then show ?case by simp
next
  case (2 c s)
  show ?case
  proof (cases "is_blank c")
    case True
    with 2 have "set (sub_blanks (dropWhile is_blank s)) \<subseteq> insert SPACE (set (dropWhile is_blank s))"
      by simp
    moreover have "set (dropWhile is_blank s) \<subseteq> set s" by (auto dest: set_dropWhileD)
    ultimately show ?thesis using True by auto
  next
    case False
    with 2 show ?thesis by auto
  qed
qed

lemma sub_blanks_no_TAB: "TAB \<notin> set (sub_blanks s)"
  by (induction s rule: sub_blanks.induct) (auto simp: is_blank_def TAB_def SPACE_def)

lemma sub_blanks_hd:
  "s \<noteq> [] \<Longrightarrow> \<not> is_blank (hd s) \<Longrightarrow> hd (sub_blanks s) = hd s \<and> sub_blanks s \<noteq> []"
  by (cases s) auto

lemma sub_blanks_no_blank_run: "\<not> has_blank_run (sub_blanks s)"
proof (induction s rule: sub_blanks.induct)
  case 1 then show ?case by simp
next
  case (2 c s)
  show ?case
  proof (cases "is_blank c")
    case True
    let ?t = "dropWhile is_blank s"
    from 2 True have ih: "\<not> has_blank_run (sub_blanks ?t)" by simp
    have "sub_blanks ?t \<noteq> [] \<Longrightarrow> \<not> is_blank (hd (sub_blanks ?t))"
    proof -
      assume ne: "sub_blanks ?t \<noteq> []"
      then have t: "?t \<noteq> []" by (metis sub_blanks.simps(1))
      from hd_dropWhile_not [OF t] sub_blanks_hd [OF t] show ?thesis by simp
    qed
    with ih True show ?thesis by (auto simp: has_blank_run_Cons)
  next
    case False
    with 2 show ?thesis by (auto simp: has_blank_run_Cons)
  qed
qed

subsection \<open>Runs of line feeds\<close>

lemma has_newline_run3_append_left: "has_newline_run3 ys \<Longrightarrow> has_newline_run3 (xs @ ys)"
proof (induction xs)
  case Nil then show ?case by simp
next
  case (Cons x xs)
  then have "has_newline_run3 (xs @ ys)" by simp
  then show ?case by (cases "xs @ ys" rule: has_newline_run3.cases) auto
qed

lemma has_newline_run3_append_right: "has_newline_run3 xs \<Longrightarrow> has_newline_run3 (xs @ ys)"
  by (induction xs rule: has_newline_run3.induct) auto

lemma strip_no_newline_run3: "\<not> has_newline_run3 s \<Longrightarrow> \<not> has_newline_run3 (strip s)"
  by (metis strip_decomp has_newline_run3_append_left has_newline_run3_append_right)

lemma run3_head: "3 \<le> length (takeWhile (\<lambda>x. x = LF) (c # s)) \<Longrightarrow> c = LF"
  by (auto split: if_splits)

lemma sub_newlines_match:
  "3 \<le> length (takeWhile (\<lambda>x. x = LF) (c # s)) \<Longrightarrow>
   sub_newlines (c # s) = LF # LF # sub_newlines (dropWhile (\<lambda>x. x = LF) (c # s))"
  by (simp only: sub_newlines.simps if_True)

lemma sub_newlines_copy:
  "\<not> 3 \<le> length (takeWhile (\<lambda>x. x = LF) (c # s)) \<Longrightarrow>
   sub_newlines (c # s) = c # sub_newlines s"
  by (simp only: sub_newlines.simps if_False)

lemma set_sub_newlines: "set (sub_newlines s) \<subseteq> set s"
proof (induction s rule: sub_newlines.induct)
  case 1 then show ?case by simp
next
  case (2 c s)
  show ?case
  proof (cases "3 \<le> length (takeWhile (\<lambda>x. x = LF) (c # s))")
    case True
    define t where "t = dropWhile (\<lambda>x. x = LF) (c # s)"
    have "set (sub_newlines t) \<subseteq> set t" unfolding t_def by (rule 2(1) [OF True])
    moreover have "set t \<subseteq> set (c # s)" unfolding t_def by (blast dest: set_dropWhileD)
    moreover have "c = LF" using True by (rule run3_head)
    moreover have "sub_newlines (c # s) = LF # LF # sub_newlines t"
      unfolding t_def by (rule sub_newlines_match [OF True])
    ultimately show ?thesis by auto
  next
    case False
    with 2(2) have "set (sub_newlines s) \<subseteq> set s" by simp
    then show ?thesis unfolding sub_newlines_copy [OF False] by auto
  qed
qed

lemma sub_newlines_hd: "s \<noteq> [] \<Longrightarrow> sub_newlines s \<noteq> [] \<and> hd (sub_newlines s) = hd s"
  by (cases s) (auto split: if_splits)

lemma sub_newlines_no_blank_run: "\<not> has_blank_run s \<Longrightarrow> \<not> has_blank_run (sub_newlines s)"
proof (induction s rule: sub_newlines.induct)
  case 1 then show ?case by simp
next
  case (2 c s)
  show ?case
  proof (cases "3 \<le> length (takeWhile (\<lambda>x. x = LF) (c # s))")
    case True
    define t where "t = dropWhile (\<lambda>x. x = LF) (c # s)"
    have "c # s = takeWhile (\<lambda>x. x = LF) (c # s) @ t" unfolding t_def by simp
    with 2(3) have "\<not> has_blank_run t" by (metis has_blank_run_append_left)
    then have "\<not> has_blank_run (sub_newlines t)" unfolding t_def by (rule 2(1) [OF True])
    then have "\<not> has_blank_run (LF # LF # sub_newlines t)"
      by (simp add: has_blank_run_Cons is_blank_def LF_def TAB_def SPACE_def)
    then show ?thesis unfolding sub_newlines_match [OF True] t_def .
  next
    case False
    from 2(3) have t: "\<not> has_blank_run s" by (simp add: has_blank_run_Cons)
    with 2(2) False have ih: "\<not> has_blank_run (sub_newlines s)" by simp
    have "\<not> has_blank_run (c # sub_newlines s)"
    proof (cases "s = []")
      case True then show ?thesis by simp
    next
      case ne: False
      from sub_newlines_hd [OF ne] 2(3) ih ne show ?thesis
        by (simp add: has_blank_run_Cons)
    qed
    then show ?thesis unfolding sub_newlines_copy [OF False] .
  qed
qed

lemma lead_newlines_simps:
  "lead_newlines [] = 0"
  "lead_newlines (c # s) = (if c = LF then Suc (lead_newlines s) else 0)"
  by (simp_all add: lead_newlines_def)

lemma lead_newlines_dropWhile: "lead_newlines (dropWhile (\<lambda>x. x = LF) s) = 0"
  unfolding lead_newlines_def by (induction s) auto

lemma lead_sub_newlines: "lead_newlines (sub_newlines s) = min 2 (lead_newlines s)"
proof (induction s rule: sub_newlines.induct)
  case 1 then show ?case by (simp add: lead_newlines_simps)
next
  case (2 c s)
  show ?case
  proof (cases "3 \<le> length (takeWhile (\<lambda>x. x = LF) (c # s))")
    case True
    define t where "t = dropWhile (\<lambda>x. x = LF) (c # s)"
    have "lead_newlines t = 0" unfolding t_def by (rule lead_newlines_dropWhile)
    moreover have "lead_newlines (sub_newlines t) = min 2 (lead_newlines t)"
      unfolding t_def by (rule 2(1) [OF True])
    ultimately have "lead_newlines (LF # LF # sub_newlines t) = 2"
      by (simp add: lead_newlines_simps)
    moreover from True have "3 \<le> lead_newlines (c # s)" unfolding lead_newlines_def .
    ultimately have "lead_newlines (LF # LF # sub_newlines t) = min 2 (lead_newlines (c # s))"
      by simp
    then show ?thesis unfolding sub_newlines_match [OF True] t_def .
  next
    case False
    with 2(2) have ih: "lead_newlines (sub_newlines s) = min 2 (lead_newlines s)" by simp
    from False have "lead_newlines (c # s) < 3" unfolding lead_newlines_def by linarith
    with ih have "lead_newlines (c # sub_newlines s) = min 2 (lead_newlines (c # s))"
      by (auto simp add: lead_newlines_simps split: if_splits)
    then show ?thesis unfolding sub_newlines_copy [OF False] .
  qed
qed

lemma has_newline_run3_Cons:
  "has_newline_run3 (c # t) \<longleftrightarrow> 3 \<le> lead_newlines (c # t) \<or> has_newline_run3 t"
proof (cases t)
  case Nil then show ?thesis by (simp add: lead_newlines_simps)
next
  case (Cons b t')
  then show ?thesis by (cases t') (auto simp add: lead_newlines_simps)
qed

lemma sub_newlines_no_run3: "\<not> has_newline_run3 (sub_newlines s)"
proof (induction s rule: sub_newlines.induct)
  case 1 then show ?case by simp
next
  case (2 c s)
  show ?case
  proof (cases "3 \<le> length (takeWhile (\<lambda>x. x = LF) (c # s))")
    case True
    define t where "t = dropWhile (\<lambda>x. x = LF) (c # s)"
    have ih: "\<not> has_newline_run3 (sub_newlines t)" unfolding t_def by (rule 2(1) [OF True])
    have "lead_newlines t = 0" unfolding t_def by (rule lead_newlines_dropWhile)
    then have "lead_newlines (sub_newlines t) = 0" by (simp add: lead_sub_newlines)
    with ih have "\<not> has_newline_run3 (LF # LF # sub_newlines t)"
      by (simp add: has_newline_run3_Cons lead_newlines_simps)
    then show ?thesis unfolding sub_newlines_match [OF True] t_def .
  next
    case False
    with 2(2) have ih: "\<not> has_newline_run3 (sub_newlines s)" by simp
    from False have "lead_newlines (c # s) < 3" unfolding lead_newlines_def by linarith
    then have "lead_newlines (c # sub_newlines s) < 3"
      by (auto simp add: lead_newlines_simps lead_sub_newlines split: if_splits)
    with ih have "\<not> has_newline_run3 (c # sub_newlines s)"
      by (simp add: has_newline_run3_Cons)
    then show ?thesis unfolding sub_newlines_copy [OF False] .
  qed
qed

subsection \<open>The normalised text\<close>

lemma normalize_ws_no_CR: "CR \<notin> set (normalize_ws raw)"
proof -
  have "CR \<notin> set (sub_blanks (replace_cr (replace_crlf raw)))"
    using set_sub_blanks [of "replace_cr (replace_crlf raw)"] replace_cr_no_CR [of "replace_crlf raw"]
    by (auto simp: CR_def SPACE_def)
  then have "CR \<notin> set (sub_newlines (sub_blanks (replace_cr (replace_crlf raw))))"
    using set_sub_newlines by blast
  then show ?thesis unfolding normalize_ws_def using set_strip by blast
qed

lemma normalize_ws_no_TAB: "TAB \<notin> set (normalize_ws raw)"
proof -
  have "TAB \<notin> set (sub_newlines (sub_blanks (replace_cr (replace_crlf raw))))"
    using set_sub_newlines sub_blanks_no_TAB by blast
  then show ?thesis unfolding normalize_ws_def using set_strip by blast
qed

lemma normalize_ws_no_blank_run: "\<not> has_blank_run (normalize_ws raw)"
  unfolding normalize_ws_def
  by (intro strip_no_blank_run sub_newlines_no_blank_run sub_blanks_no_blank_run)

lemma normalize_ws_no_newline_run3: "\<not> has_newline_run3 (normalize_ws raw)"
  unfolding normalize_ws_def
  by (intro strip_no_newline_run3 sub_newlines_no_run3)

lemma normalize_untidy: "normalize_ws untidy_text = tidy_text"
  unfolding untidy_text_def tidy_text_def
  by (simp add: normalize_ws_def strip_def replace_cr_def str_def CR_def LF_def TAB_def
      SPACE_def is_blank_def isspace_def)

lemma length_tidy: "length tidy_text = 127"
  by (simp add: tidy_text_def str_def)

lemma normalize_short: "normalize_ws short_text = str ''too short''"
  unfolding short_text_def
  by (simp add: normalize_ws_def strip_def replace_cr_def str_def CR_def LF_def TAB_def
      SPACE_def is_blank_def isspace_def)

lemma msgs_nonempty: "msg_no_text \<noteq> []" "msg_empty \<noteq> []" "msg_too_short \<noteq> []"
  by (simp_all add: msg_no_text_def msg_empty_def msg_too_short_def str_def)

lemma preprocess_cases:
  "raw_text = None \<and> preprocess_study_text raw_text = (None, Some msg_no_text) \<or>
   (\<exists>raw. raw_text = Some raw \<and> normalize_ws raw = [] \<and>
      preprocess_study_text raw_text = (None, Some msg_empty)) \<or>
   (\<exists>raw. raw_text = Some raw \<and> normalize_ws raw \<noteq> [] \<and>
      length (normalize_ws raw) < min_chars \<and>
      preprocess_study_text raw_text = (None, Some msg_too_short)) \<or>
   (\<exists>raw. raw_text = Some raw \<and> min_chars \<le> length (normalize_ws raw) \<and>
      preprocess_study_text raw_text = (Some (normalize_ws raw), None))"
  by (cases raw_text) (auto simp: preprocess_study_text_def Let_def)

lemma preprocess_untidy: "preprocess_study_text (Some untidy_text) = (Some tidy_text, None)"
proof -
  have "tidy_text \<noteq> []" using length_tidy by auto
  then show ?thesis
    by (simp add: preprocess_study_text_def normalize_untidy Let_def length_tidy min_chars_def)
qed

text \<open>
  C3. \<open>_preprocess_study_text\<close> enforces the minimum of 120 characters: a string whose
  normalised text is not empty and shorter than 120 characters gives
  \<open>(None, error message)\<close>, and a string whose normalised text has at least 120
  characters gives \<open>(clean_text, None)\<close>, where \<open>clean_text\<close> is the normalised text.
\<close>

theorem preprocess_min_length:
  "(normalize_ws raw \<noteq> [] \<and> length (normalize_ws raw) < 120 \<longrightarrow>
      preprocess_study_text (Some raw) = (None, Some msg_too_short)) \<and>
   (120 \<le> length (normalize_ws raw) \<longrightarrow>
      preprocess_study_text (Some raw) = (Some (normalize_ws raw), None))"
  by (auto simp: preprocess_study_text_def Let_def min_chars_def)

theorem preprocess_min_length_witness:
  "normalize_ws short_text \<noteq> [] \<and> length (normalize_ws short_text) < 120 \<and>
   preprocess_study_text (Some short_text) = (None, Some msg_too_short) \<and>
   120 \<le> length (normalize_ws untidy_text) \<and>
   preprocess_study_text (Some untidy_text) = (Some tidy_text, None)"
proof -
  have short: "normalize_ws short_text \<noteq> [] \<and> length (normalize_ws short_text) < 120"
    unfolding normalize_short by (simp add: str_def)
  have long: "120 \<le> length (normalize_ws untidy_text)"
    unfolding normalize_untidy by (simp add: length_tidy)
  from preprocess_min_length [of short_text] short
  have 1: "preprocess_study_text (Some short_text) = (None, Some msg_too_short)"
    by blast
  from preprocess_min_length [of untidy_text] long
  have 2: "preprocess_study_text (Some untidy_text) = (Some tidy_text, None)"
    by (simp add: normalize_untidy)
  from short long 1 2 show ?thesis by blast
qed

text \<open>
  C5. Every text that preprocessing accepts is whitespace-normalised when it reaches the
  generator: it has no carriage return and no tab, no two adjacent spaces or tabs, no
  three adjacent line feeds, and no whitespace at either end; and \<open>ui_generate\<close> consults
  the generator at this cleaned text only, so two generators that agree there give the
  same result.
\<close>

theorem cleaned_text_whitespace_normalized:
  assumes "preprocess_study_text study_text = (Some clean, None)"
  shows "CR \<notin> set clean \<and> TAB \<notin> set clean \<and> \<not> has_blank_run clean \<and>
         \<not> has_newline_run3 clean \<and> \<not> leading_ws clean \<and> \<not> trailing_ws clean \<and>
         (\<forall>gen'. gen' (Some clean) n style difficulty use_llm =
                   gen (Some clean) n style difficulty use_llm \<longrightarrow>
            ui_generate gen' tbl asd study_text n style difficulty use_llm =
            ui_generate gen tbl asd study_text n style difficulty use_llm)"
proof -
  from assms preprocess_cases [of study_text]
  obtain raw where clean: "clean = normalize_ws raw" by auto
  have ws: "\<not> leading_ws clean" "\<not> trailing_ws clean"
    unfolding clean normalize_ws_def by (rule strip_not_leading, rule strip_not_trailing)
  have gen: "\<forall>gen'. gen' (Some clean) n style difficulty use_llm =
                   gen (Some clean) n style difficulty use_llm \<longrightarrow>
            ui_generate gen' tbl asd study_text n style difficulty use_llm =
            ui_generate gen tbl asd study_text n style difficulty use_llm"
    by (simp add: ui_generate_def assms truthy_def)
  from ws gen show ?thesis
    unfolding clean
    using normalize_ws_no_CR [of raw] normalize_ws_no_TAB [of raw]
      normalize_ws_no_blank_run [of raw] normalize_ws_no_newline_run3 [of raw]
    by blast
qed

theorem cleaned_text_whitespace_normalized_witness:
  "preprocess_study_text (Some untidy_text) = (Some tidy_text, None) \<and>
   CR \<notin> set tidy_text \<and> TAB \<notin> set tidy_text \<and> \<not> has_blank_run tidy_text \<and>
   \<not> has_newline_run3 tidy_text \<and> \<not> leading_ws tidy_text \<and> \<not> trailing_ws tidy_text \<and>
   strict_generator (Some tidy_text) 2 (str ''Q/A'') (str ''medium'') False =
     sample_generator (Some tidy_text) 2 (str ''Q/A'') (str ''medium'') False \<and>
   ui_generate strict_generator sample_table sample_asdict (Some untidy_text) 2 (str ''Q/A'')
     (str ''medium'') False =
   ui_generate sample_generator sample_table sample_asdict (Some untidy_text) 2 (str ''Q/A'')
     (str ''medium'') False"
proof -
  have agree: "strict_generator (Some tidy_text) 2 (str ''Q/A'') (str ''medium'') False =
     sample_generator (Some tidy_text) 2 (str ''Q/A'') (str ''medium'') False"
    by (simp add: strict_generator_def)
  from cleaned_text_whitespace_normalized [OF preprocess_untidy,
      of 2 "str ''Q/A''" "str ''medium''" False sample_generator sample_table sample_asdict]
    agree preprocess_untidy
  show ?thesis by blast
qed

section \<open>The generation handler\<close>

text \<open>
  C1. \<open>ui_generate\<close> is a total function into four-tuples (table rows, status, raw text,
  card state), and an exception of the generation call does not leave it: when the
  text passes preprocessing and the generator raises, the result is an empty table, the
  status \<open>**Error:**\<close> followed by the (non-empty) message, the message as raw text, and
  an empty card state.
\<close>

theorem ui_generate_catches_generator_exception:
  assumes "preprocess_study_text study_text = (cleaned, err)" and "\<not> truthy err"
    and "gen cleaned n style difficulty use_llm = Inl e"
  shows "ui_generate gen tbl asd study_text n style difficulty use_llm =
           ([], str ''**Error:** '' @ exception_msg e, exception_msg e, []) \<and>
         exception_msg e \<noteq> []"
  using assms by (simp add: ui_generate_def error_status_def exception_msg_def str_def)

theorem ui_generate_catches_generator_exception_witness:
  "preprocess_study_text (Some untidy_text) = (Some tidy_text, None) \<and> \<not> truthy None \<and>
   failing_generator (Some tidy_text) 10 (str ''Q/A'') (str ''medium'') True =
     Inl (str '' request timed out '') \<and>
   ui_generate failing_generator sample_table sample_asdict (Some untidy_text) 10 (str ''Q/A'')
     (str ''medium'') True =
     ([], str ''**Error:** request timed out'', str ''request timed out'', [])"
proof -
  have t: "\<not> truthy None" by (simp add: truthy_def)
  have f: "failing_generator (Some tidy_text) 10 (str ''Q/A'') (str ''medium'') True =
     Inl (str '' request timed out '')"
    by (simp add: failing_generator_def)
  have m: "exception_msg (str '' request timed out '') = str ''request timed out''"
    by (simp add: exception_msg_def strip_def isspace_def str_def)
  from ui_generate_catches_generator_exception
    [where gen = failing_generator and tbl = sample_table and asd = sample_asdict,
      OF preprocess_untidy t f]
  have "ui_generate failing_generator sample_table sample_asdict (Some untidy_text) 10 (str ''Q/A'')
     (str ''medium'') True =
     ([], str ''**Error:** '' @ str ''request timed out'', str ''request timed out'', [])"
    unfolding m by simp
  then have "ui_generate failing_generator sample_table sample_asdict (Some untidy_text) 10
     (str ''Q/A'') (str ''medium'') True =
     ([], str ''**Error:** request timed out'', str ''request timed out'', [])"
    by (simp add: str_def)
  with preprocess_untidy t f show ?thesis by blast
qed

text \<open>
  C2, as stated, fails for the card count: \<open>ui_generate\<close> does not look at \<open>n_cards\<close>. With
  a valid text and the count 0, outside the bounds 3 to 30, it calls the generator
  (whose raw output reports the count it received) and returns a success status.
\<close>

theorem ui_generate_count_not_validated:
  "ui_generate sample_generator sample_table sample_asdict (Some untidy_text) 0 (str ''Q/A'')
     (str ''medium'') False =
   ([],
    str ''**Generated 0 flashcards.** Mode: `fallback`'' @ [LF, LF] @
    str ''**Note:** Using offline fallback generation (LLM disabled or unavailable).'' @
    [LF, LF] @ str ''Go to the **Quiz** tab to start practicing.'',
    str ''n=0'', [])"
  by (simp add: ui_generate_def preprocess_untidy truthy_def sample_generator_def
      sample_table_def generated_status_def str_int_def str_nat.simps str_def)

text \<open>
  C2, amended. A validation error for the text is returned before any generation
  attempt: when the study text is \<open>None\<close>, or is empty or shorter than 120 characters
  after normalisation, \<open>ui_generate\<close> returns an empty table, the status \<open>**Error:**\<close>
  followed by the message of \<open>_preprocess_study_text\<close>, an empty raw text and an empty
  card state, for every generator and every count, style, difficulty and LLM preference:
  the generator is not consulted.
\<close>

theorem ui_generate_validation_before_generation:
  assumes "study_text = None \<or>
           (\<exists>raw. study_text = Some raw \<and> length (normalize_ws raw) < min_chars)"
  shows "\<exists>err. err \<noteq> [] \<and> snd (preprocess_study_text study_text) = Some err \<and>
           (\<forall>gen n style difficulty use_llm.
              ui_generate gen tbl asd study_text n style difficulty use_llm =
                ([], str ''**Error:** '' @ err, [], []))"
  using assms preprocess_cases [of study_text]
  by (auto simp: ui_generate_def truthy_def error_status_def msgs_nonempty)

theorem ui_generate_validation_before_generation_witness:
  "(Some short_text = None \<or>
    (\<exists>raw. Some short_text = Some raw \<and> length (normalize_ws raw) < min_chars)) \<and>
   ui_generate sample_generator sample_table sample_asdict (Some short_text) 10 (str ''Q/A'')
     (str ''medium'') True = ([], str ''**Error:** '' @ msg_too_short, [], [])"
proof -
  have h: "Some short_text = None \<or>
    (\<exists>raw. Some short_text = Some raw \<and> length (normalize_ws raw) < min_chars)"
    by (simp add: normalize_short min_chars_def str_def)
  have p: "snd (preprocess_study_text (Some short_text)) = Some msg_too_short"
    by (simp add: preprocess_study_text_def normalize_short Let_def min_chars_def str_def)
  from ui_generate_validation_before_generation [OF h, of sample_table sample_asdict]
  obtain err where "snd (preprocess_study_text (Some short_text)) = Some err"
    and "\<forall>gen n style difficulty use_llm.
              ui_generate gen sample_table sample_asdict (Some short_text) n style difficulty use_llm =
                ([], str ''**Error:** '' @ err, [], [])"
    by blast
  with p have "ui_generate sample_generator sample_table sample_asdict (Some short_text) 10
     (str ''Q/A'') (str ''medium'') True = ([], str ''**Error:** '' @ msg_too_short, [], [])"
    by simp
  with h show ?thesis by blast
qed

section \<open>The quiz\<close>

subsection \<open>The score text\<close>

lemma str_digits_bound_gt: "(9::int) < 10 ^ max_str_digits"
proof -
  have "(10::int) ^ 1 \<le> 10 ^ max_str_digits"
    by (rule power_increasing) (simp_all add: max_str_digits_def)
  then show ?thesis by simp
qed


lemma format_int_small: "abs i \<le> 9 \<Longrightarrow> format_int i = Inr (str_int i)"
  using str_digits_bound_gt by (simp add: format_int_def)



lemma str_int_1: "str_int 1 = str ''1''"
  by (simp add: str_int_def str_nat.simps str_def)

lemma str_int_2: "str_int 2 = str ''2''"
  by (simp add: str_int_def str_nat.simps str_def)

text \<open>With all counters at zero, as in every state that a quiz starts from and that
  \<open>ui_next_question\<close> alone moves on, the score text is the summary of an empty score.\<close>

lemma quiz_score_text_zero:
  assumes "correct s = 0" and "incorrect s = 0" and "answered s = 0"
  shows "quiz_score_text f s =
     Inr (str ''Correct: **'' @ str_int 0 @ str ''**'' @ [LF, LF] @
          str ''Incorrect: **'' @ str_int 0 @ str ''**'' @ [LF, LF] @
          str ''Total answered: **'' @ str_int 0 @ str ''**'' @ [LF, LF] @
          str ''Accuracy: **'' @ str ''0.0'' @ str ''%**'')"
  using assms by (simp add: quiz_score_text_def format_int_small)

text \<open>The state that each handler returns does not depend on the texts: the state is
  updated before they are computed, and the \<open>except\<close> clause returns it as well.\<close>

lemma fst_on_exception: "fst (on_exception qs e) = qs"
  by (simp add: on_exception_def)

lemma state_after_reveal:
  "fst (ui_reveal_answer f qs) =
     (case qs of
        None \<Rightarrow> None
      | Some s \<Rightarrow> if cards s = [] \<or> finished s then Some s else Some (s\<lparr>revealed := True\<rparr>))"
  by (simp add: ui_reveal_answer_def Let_def fst_on_exception split: option.splits sum.splits)

lemma state_after_mark:
  "fst (ui_mark_answer f qs is_correct) =
     (case qs of
        None \<Rightarrow> None
      | Some s \<Rightarrow>
          if cards s = [] \<or> finished s \<or> marked s then Some s
          else if idx s < 0 \<or> int (length (cards s)) \<le> idx s then Some (s\<lparr>finished := True\<rparr>)
          else Some (s\<lparr>answered := answered s + 1,
                       correct := (if is_correct then correct s + 1 else correct s),
                       incorrect := (if is_correct then incorrect s else incorrect s + 1),
                       marked := True,
                       history := history s @ [history_entry (cards s ! nat (idx s)) is_correct]\<rparr>))"
  by (simp add: ui_mark_answer_def Let_def fst_on_exception split: option.splits sum.splits)

lemma state_after_next:
  "fst (ui_next_question f qs) =
     (case qs of
        None \<Rightarrow> None
      | Some s \<Rightarrow>
          if cards s = [] \<or> finished s then Some s
          else Some (s\<lparr>idx := idx s + 1, revealed := False, marked := False,
                       finished := (int (length (cards s)) \<le> idx s + 1)\<rparr>))"
  by (simp add: ui_next_question_def Let_def fst_on_exception split: option.splits sum.splits)




subsection \<open>Revealing and marking\<close>

text \<open>
  C9. On a session with cards that is not finished, \<open>ui_reveal_answer\<close> returns the state
  with \<open>revealed\<close> set to \<open>True\<close> and nothing else changed: cards, index, correct,
  incorrect, answered, marked, history and finished are as before.
\<close>

theorem reveal_answer_only_sets_revealed:
  assumes "cards s \<noteq> []" and "\<not> finished s"
  shows "\<exists>s'. fst (ui_reveal_answer f (Some s)) = Some s' \<and> s' = s\<lparr>revealed := True\<rparr> \<and>
           revealed s' \<and> cards s' = cards s \<and> idx s' = idx s \<and> correct s' = correct s \<and>
           incorrect s' = incorrect s \<and> answered s' = answered s \<and> marked s' = marked s \<and>
           history s' = history s \<and> finished s' = finished s"
  using assms by (simp add: state_after_reveal)

theorem reveal_answer_only_sets_revealed_witness:
  "cards (quiz_init_state sample_cards) \<noteq> [] \<and> \<not> finished (quiz_init_state sample_cards) \<and>
   fst (ui_reveal_answer sample_pct_1f (Some (quiz_init_state sample_cards))) =
     Some \<lparr>cards = sample_cards, idx = 0, revealed = True, marked = False, correct = 0,
           incorrect = 0, answered = 0, history = [], finished = False\<rparr>"
proof -
  have h1: "cards (quiz_init_state sample_cards) \<noteq> []"
    by (simp add: quiz_init_state_def sample_cards_def)
  have h2: "\<not> finished (quiz_init_state sample_cards)"
    by (simp add: quiz_init_state_def)
  from reveal_answer_only_sets_revealed [OF h1 h2, of sample_pct_1f] h1 h2 show ?thesis
    by (auto simp add: quiz_init_state_def)
qed

text \<open>
  C7. Scoring counts each question at most once. On an unfinished session whose index
  is in range and whose question is not marked, \<open>ui_mark_answer\<close> adds one to \<open>answered\<close>,
  adds one to \<open>correct\<close> when \<open>is_correct\<close> and to \<open>incorrect\<close> otherwise, leaving the other
  counter alone, sets \<open>marked\<close> and appends one record to \<open>history\<close>. When the question is
  already marked or the session is finished, the state, with all counters and the
  history, is returned unchanged.
\<close>

theorem mark_answer_counts_once:
  "(\<not> finished s \<and> \<not> marked s \<and> 0 \<le> idx s \<and> idx s < int (length (cards s)) \<longrightarrow>
      fst (ui_mark_answer f (Some s) is_correct) =
        Some (s\<lparr>answered := answered s + 1,
                correct := (if is_correct then correct s + 1 else correct s),
                incorrect := (if is_correct then incorrect s else incorrect s + 1),
                marked := True,
                history := history s @ [history_entry (cards s ! nat (idx s)) is_correct]\<rparr>)) \<and>
   (marked s \<or> finished s \<longrightarrow> fst (ui_mark_answer f (Some s) is_correct) = Some s)"
  by (auto simp add: state_after_mark)

theorem mark_answer_counts_once_witness:
  "(\<not> finished (quiz_init_state sample_cards) \<and> \<not> marked (quiz_init_state sample_cards) \<and>
    0 \<le> idx (quiz_init_state sample_cards) \<and>
    idx (quiz_init_state sample_cards) < int (length (cards (quiz_init_state sample_cards)))) \<and>
   fst (ui_mark_answer sample_pct_1f (Some (quiz_init_state sample_cards)) True) =
     Some \<lparr>cards = sample_cards, idx = 0, revealed = False, marked = True, correct = 1,
           incorrect = 0, answered = 1,
           history = [[(str ''question'', str ''Q1''), (str ''answer'', str ''A1''),
                       (str ''type'', str ''qa''), (str ''difficulty'', str ''easy''),
                       (str ''result'', str ''correct'')]],
           finished = False\<rparr> \<and>
   (marked ((quiz_init_state sample_cards)\<lparr>marked := True\<rparr>) \<or>
    finished ((quiz_init_state sample_cards)\<lparr>marked := True\<rparr>)) \<and>
   fst (ui_mark_answer sample_pct_1f (Some ((quiz_init_state sample_cards)\<lparr>marked := True\<rparr>))
          False) =
     Some ((quiz_init_state sample_cards)\<lparr>marked := True\<rparr>)"
proof -
  let ?s = "quiz_init_state sample_cards"
  have h: "\<not> finished ?s \<and> \<not> marked ?s \<and> 0 \<le> idx ?s \<and> idx ?s < int (length (cards ?s))"
    by (simp add: quiz_init_state_def sample_cards_def)
  have e: "history_entry (cards ?s ! nat (idx ?s)) True =
           [(str ''question'', str ''Q1''), (str ''answer'', str ''A1''),
            (str ''type'', str ''qa''), (str ''difficulty'', str ''easy''),
            (str ''result'', str ''correct'')]"
    by (simp add: quiz_init_state_def sample_cards_def history_entry_def dict_get_def str_def)
  have m: "marked (?s\<lparr>marked := True\<rparr>) \<or> finished (?s\<lparr>marked := True\<rparr>)" by simp
  from mark_answer_counts_once [of ?s sample_pct_1f True] h
  have 1: "fst (ui_mark_answer sample_pct_1f (Some ?s) True) =
        Some (?s\<lparr>answered := answered ?s + 1,
                correct := (if True then correct ?s + 1 else correct ?s),
                incorrect := (if True then incorrect ?s else incorrect ?s + 1),
                marked := True,
                history := history ?s @ [history_entry (cards ?s ! nat (idx ?s)) True]\<rparr>)"
    by blast
  from mark_answer_counts_once [of "?s\<lparr>marked := True\<rparr>" sample_pct_1f False] m
  have 2: "fst (ui_mark_answer sample_pct_1f (Some (?s\<lparr>marked := True\<rparr>)) False) =
        Some (?s\<lparr>marked := True\<rparr>)"
    by blast
  show ?thesis
    unfolding 1 2 e using h by (simp add: quiz_init_state_def)
qed

subsection \<open>Moving through the cards\<close>

lemma next_question_iterated:
  assumes "cs \<noteq> []"
  shows "((\<lambda>qs. fst (ui_next_question f qs)) ^^ j) (Some (quiz_init_state cs)) =
         Some ((quiz_init_state cs)\<lparr>idx := int (min j (length cs)), finished := (length cs \<le> j)\<rparr>)"
proof (induction j)
  case 0
  with assms show ?case by (simp add: quiz_init_state_def)
next
  case (Suc j)
  show ?case
  proof (cases "length cs \<le> j")
    case True
    with assms Suc show ?thesis
      by (simp add: state_after_next quiz_init_state_def min_def)
  next
    case False
    with assms Suc show ?thesis
      by (auto simp add: state_after_next quiz_init_state_def min_def)
  qed
qed

text \<open>
  C6. The quiz presents one question at a time, in card order. Over \<open>k \<ge> 1\<close> cards,
  \<open>ui_start_quiz\<close> gives the initial state, whose index is 0, the progress text
  \<open>Question 1 / k\<close> and the question of the first card. On every unfinished session with
  cards, \<open>ui_next_question\<close> adds exactly one to the index, resets \<open>revealed\<close> and \<open>marked\<close>,
  and sets \<open>finished\<close> exactly when the new index has reached the number of cards. Hence
  after \<open>j\<close> calls of \<open>ui_next_question\<close> from the start the index is \<open>j\<close>, up to \<open>k\<close>, where
  the session is finished and stays so; and the call number \<open>j + 1\<close> shows the question
  of card \<open>j + 1\<close> while there is one and no question afterwards: each card's question
  is shown once, in sequence.
\<close>

theorem quiz_presents_cards_in_order:
  assumes "cs \<noteq> []"
  shows
  "(\<exists>score. ui_start_quiz f cs =
       Inr (Some (quiz_init_state cs), str ''Question 1 / '' @ str_int (int (length cs)),
            dict_get (cs ! 0) (str ''question'') [], score, [])) \<and>
   idx (quiz_init_state cs) = 0 \<and>
   (\<forall>s. cards s \<noteq> [] \<and> \<not> finished s \<longrightarrow>
      fst (ui_next_question f (Some s)) =
        Some (s\<lparr>idx := idx s + 1, revealed := False, marked := False,
                finished := (int (length (cards s)) \<le> idx s + 1)\<rparr>)) \<and>
   (\<forall>j. ((\<lambda>qs. fst (ui_next_question f qs)) ^^ j) (Some (quiz_init_state cs)) =
          Some ((quiz_init_state cs)\<lparr>idx := int (min j (length cs)),
                                     finished := (length cs \<le> j)\<rparr>)) \<and>
   (\<forall>j. fst (snd (snd (ui_next_question f
            (((\<lambda>qs. fst (ui_next_question f qs)) ^^ j) (Some (quiz_init_state cs)))))) =
          (if j + 1 < length cs then dict_get (cs ! (j + 1)) (str ''question'') [] else []))"
proof (intro conjI allI)
  show "\<exists>score. ui_start_quiz f cs =
       Inr (Some (quiz_init_state cs), str ''Question 1 / '' @ str_int (int (length cs)),
            dict_get (cs ! 0) (str ''question'') [], score, [])"
    using assms
    by (simp add: ui_start_quiz_def quiz_score_text_zero Let_def quiz_progress_text_def
        quiz_current_question_def quiz_init_state_def str_int_1 str_def)
next
  show "idx (quiz_init_state cs) = 0" by (simp add: quiz_init_state_def)
next
  fix s
  show "cards s \<noteq> [] \<and> \<not> finished s \<longrightarrow>
      fst (ui_next_question f (Some s)) =
        Some (s\<lparr>idx := idx s + 1, revealed := False, marked := False,
                finished := (int (length (cards s)) \<le> idx s + 1)\<rparr>)"
    by (simp add: state_after_next)
next
  fix j
  show "((\<lambda>qs. fst (ui_next_question f qs)) ^^ j) (Some (quiz_init_state cs)) =
          Some ((quiz_init_state cs)\<lparr>idx := int (min j (length cs)),
                                     finished := (length cs \<le> j)\<rparr>)"
    by (rule next_question_iterated [OF assms])
next
  fix j
  show "fst (snd (snd (ui_next_question f
            (((\<lambda>qs. fst (ui_next_question f qs)) ^^ j) (Some (quiz_init_state cs)))))) =
          (if j + 1 < length cs then dict_get (cs ! (j + 1)) (str ''question'') [] else [])"
    unfolding next_question_iterated [OF assms]
    using assms
    by (auto simp add: ui_next_question_def quiz_score_text_zero Let_def quiz_init_state_def
        quiz_current_question_def min_def nat_add_distrib)
qed

theorem quiz_presents_cards_in_order_witness:
  "sample_cards \<noteq> [] \<and>
   (\<exists>score. ui_start_quiz sample_pct_1f sample_cards =
       Inr (Some (quiz_init_state sample_cards), str ''Question 1 / 2'', str ''Q1'', score, [])) \<and>
   cards (quiz_init_state sample_cards) \<noteq> [] \<and> \<not> finished (quiz_init_state sample_cards) \<and>
   fst (ui_next_question sample_pct_1f (Some (quiz_init_state sample_cards))) =
     Some ((quiz_init_state sample_cards)\<lparr>idx := 1\<rparr>) \<and>
   fst (snd (snd (ui_next_question sample_pct_1f (Some (quiz_init_state sample_cards))))) =
     str ''Q2'' \<and>
   ((\<lambda>qs. fst (ui_next_question sample_pct_1f qs)) ^^ 2) (Some (quiz_init_state sample_cards)) =
     Some ((quiz_init_state sample_cards)\<lparr>idx := 2, finished := True\<rparr>)"
proof -
  let ?s = "quiz_init_state sample_cards"
  let ?next = "\<lambda>qs. fst (ui_next_question sample_pct_1f qs)"
  have ne: "sample_cards \<noteq> []" by (simp add: sample_cards_def)
  have len: "length sample_cards = 2" by (simp add: sample_cards_def)
  have h: "cards ?s \<noteq> [] \<and> \<not> finished ?s" by (simp add: quiz_init_state_def sample_cards_def)
  note inst = quiz_presents_cards_in_order [OF ne, of sample_pct_1f]
  from inst have start: "\<exists>score. ui_start_quiz sample_pct_1f sample_cards =
       Inr (Some ?s, str ''Question 1 / '' @ str_int (int (length sample_cards)),
            dict_get (sample_cards ! 0) (str ''question'') [], score, [])"
    by blast
  have q1: "dict_get (sample_cards ! 0) (str ''question'') [] = str ''Q1''"
    by (simp add: sample_cards_def dict_get_def str_def)
  have q2: "dict_get (sample_cards ! (0 + 1)) (str ''question'') [] = str ''Q2''"
    by (simp add: sample_cards_def dict_get_def str_def)
  have p: "str ''Question 1 / '' @ str_int (int (length sample_cards)) = str ''Question 1 / 2''"
    by (simp add: len str_int_2) (simp add: str_def)
  from start have start': "\<exists>score. ui_start_quiz sample_pct_1f sample_cards =
       Inr (Some ?s, str ''Question 1 / 2'', str ''Q1'', score, [])"
    unfolding q1 p .
  from inst h have "fst (ui_next_question sample_pct_1f (Some ?s)) =
        Some (?s\<lparr>idx := idx ?s + 1, revealed := False, marked := False,
                finished := (int (length (cards ?s)) \<le> idx ?s + 1)\<rparr>)"
    by blast
  then have step: "fst (ui_next_question sample_pct_1f (Some ?s)) = Some (?s\<lparr>idx := 1\<rparr>)"
    by (simp add: quiz_init_state_def len)
  from inst have "fst (snd (snd (ui_next_question sample_pct_1f ((?next ^^ 0) (Some ?s))))) =
          (if 0 + 1 < length sample_cards
           then dict_get (sample_cards ! (0 + 1)) (str ''question'') [] else [])"
    by blast
  then have shown: "fst (snd (snd (ui_next_question sample_pct_1f (Some ?s)))) = str ''Q2''"
    unfolding q2 by (simp add: len)
  from inst have "(?next ^^ 2) (Some ?s) =
          Some (?s\<lparr>idx := int (min 2 (length sample_cards)),
                   finished := (length sample_cards \<le> 2)\<rparr>)"
    by blast
  then have fin: "(?next ^^ 2) (Some ?s) = Some (?s\<lparr>idx := 2, finished := True\<rparr>)"
    unfolding len by simp
  from ne start' h step shown fin show ?thesis by blast
qed

subsection \<open>The scoring invariant\<close>

lemma score_consistent_init: "score_consistent (Some (quiz_init_state cs))"
  by (simp add: score_consistent_def quiz_init_state_def)

lemma score_consistent_step:
  assumes "score_consistent qs"
  shows "score_consistent (quiz_step f qs ev)"
proof (cases ev)
  case (Start_quiz cs)
  with assms show ?thesis
    by (auto simp add: ui_start_quiz_def Let_def score_consistent_init split: sum.splits)
next
  case Reveal_answer
  with assms show ?thesis
    by (auto simp add: state_after_reveal score_consistent_def split: option.splits)
next
  case (Mark_answer b)
  with assms show ?thesis
    by (auto simp add: state_after_mark score_consistent_def split: option.splits)
next
  case Next_question
  with assms show ?thesis
    by (auto simp add: state_after_next score_consistent_def split: option.splits)
qed

lemma score_consistent_run:
  "score_consistent qs \<Longrightarrow> score_consistent (quiz_run f qs events)"
  unfolding quiz_run_def
  by (induction events arbitrary: qs) (simp_all add: score_consistent_step)

text \<open>
  C8. In every quiz state reached from \<open>_quiz_init_state\<close> by a sequence of calls of
  \<open>ui_start_quiz\<close>, \<open>ui_reveal_answer\<close>, \<open>ui_mark_answer\<close> and \<open>ui_next_question\<close>, the
  counters satisfy \<open>answered = correct + incorrect\<close> and the history has \<open>answered\<close>
  records.
\<close>

theorem quiz_counters_consistent:
  assumes "quiz_run f (Some (quiz_init_state cs)) events = Some s"
  shows "answered s = correct s + incorrect s \<and> int (length (history s)) = answered s"
  using score_consistent_run [OF score_consistent_init, of f cs events] assms
  by (simp add: score_consistent_def)

theorem quiz_counters_consistent_witness:
  "quiz_run sample_pct_1f (Some (quiz_init_state sample_cards))
     [Reveal_answer, Mark_answer True, Mark_answer False, Next_question, Mark_answer False,
      Next_question, Mark_answer True] =
   Some \<lparr>cards = sample_cards, idx = 2, revealed = False, marked = False, correct = 1,
         incorrect = 1, answered = 2,
         history = [history_entry (sample_cards ! 0) True, history_entry (sample_cards ! 1) False],
         finished = True\<rparr> \<and>
   (2::int) = 1 + 1 \<and>
   int (length [history_entry (sample_cards ! 0) True, history_entry (sample_cards ! 1) False]) = 2"
proof -
  let ?S = "\<lparr>cards = sample_cards, idx = 2, revealed = False, marked = False, correct = 1,
         incorrect = 1, answered = 2,
         history = [history_entry (sample_cards ! 0) True, history_entry (sample_cards ! 1) False],
         finished = True\<rparr>"
  have len: "length sample_cards = 2" "sample_cards \<noteq> []" by (simp_all add: sample_cards_def)
  have run: "quiz_run sample_pct_1f (Some (quiz_init_state sample_cards))
     [Reveal_answer, Mark_answer True, Mark_answer False, Next_question, Mark_answer False,
      Next_question, Mark_answer True] = Some ?S"
    by (simp add: quiz_run_def state_after_reveal state_after_mark state_after_next
        quiz_init_state_def len)
  from quiz_counters_consistent [OF run] run show ?thesis by simp
qed

end
